theory Spec2Isabelle
  imports Main
begin

section \<open>JavaScript values and the JSON codec\<close>

text \<open>
  The values the router passes around are JavaScript values. The model covers the
  JSON-serializable ones with integer numbers: \<^verbatim>\<open>null\<close>, booleans, integers,
  strings, arrays and objects (as association lists in insertion order). Floating-point
  numbers and \<^verbatim>\<open>undefined\<close> are outside the model.

  \<^verbatim>\<open>JSON.stringify\<close> and \<^verbatim>\<open>JSON.parse\<close> are built-ins of the language, not
  code of the repository; they are written out here so that the router can be run on
  concrete values. \<open>JSON_parse\<close> returns \<open>None\<close> where \<^verbatim>\<open>JSON.parse\<close> throws a
  SyntaxError. A text with a fraction or an exponent, or with a unicode escape above
  code 255, denotes a value outside the model and is rejected as well; the order
  JavaScript gives to integer-like object keys is not modelled. The general theorems
  below never rely on which texts \<open>JSON_parse\<close> accepts: they are stated for whatever
  it returns.
\<close>

datatype jsval = JNull | JBool bool | JNum int | JStr string
  | JArr "jsval list" | JObj "(string \<times> jsval) list"

definition dquote :: char where
  "dquote = CHR 0x22"

definition backslash :: char where
  "backslash = CHR 0x5C"

definition digit_char :: "nat \<Rightarrow> char" where
  "digit_char n = ''0123456789'' ! n"

fun digits :: "nat \<Rightarrow> string" where
  "digits n = (if n < 10 then [digit_char n] else digits (n div 10) @ [digit_char (n mod 10)])"

declare digits.simps [simp del]

definition string_of_int :: "int \<Rightarrow> string" where
  "string_of_int i = (if i < 0 then CHR ''-'' # digits (nat (- i)) else digits (nat i))"

definition hex_char :: "nat \<Rightarrow> char" where
  "hex_char n = ''0123456789abcdef'' ! n"

definition escape_char :: "char \<Rightarrow> string" where
  "escape_char c =
     (if c = dquote then [backslash, dquote]
      else if c = backslash then [backslash, backslash]
      else if c = CHR 0x08 then [backslash, CHR ''b'']
      else if c = CHR 0x0C then [backslash, CHR ''f'']
      else if c = CHR 0x0A then [backslash, CHR ''n'']
      else if c = CHR 0x0D then [backslash, CHR ''r'']
      else if c = CHR 0x09 then [backslash, CHR ''t'']
      else if (of_char c :: nat) < 32
           then [backslash, CHR ''u'', CHR ''0'', CHR ''0'',
                 hex_char (of_char c div 16), hex_char (of_char c mod 16)]
      else [c])"

definition quote :: "string \<Rightarrow> string" where
  "quote s = dquote # concat (map escape_char s) @ [dquote]"

fun join_comma :: "string list \<Rightarrow> string" where
  "join_comma [] = []"
| "join_comma [x] = x"
| "join_comma (x # y # ys) = x @ CHR '','' # join_comma (y # ys)"

fun JSON_stringify :: "jsval \<Rightarrow> string" where
  "JSON_stringify JNull = ''null''"
| "JSON_stringify (JBool b) = (if b then ''true'' else ''false'')"
| "JSON_stringify (JNum n) = string_of_int n"
| "JSON_stringify (JStr s) = quote s"
| "JSON_stringify (JArr vs) = CHR ''['' # join_comma (map JSON_stringify vs) @ '']''"
| "JSON_stringify (JObj kvs) =
     CHR ''{'' # join_comma (map (\<lambda>kv. quote (fst kv) @ CHR '':'' # JSON_stringify (snd kv)) kvs) @ ''}''"




definition is_ws :: "char \<Rightarrow> bool" where
  "is_ws c = (c = CHR '' '' \<or> c = CHR 0x09 \<or> c = CHR 0x0A \<or> c = CHR 0x0D)"

definition skip_ws :: "string \<Rightarrow> string" where
  "skip_ws = dropWhile is_ws"

definition is_digit :: "char \<Rightarrow> bool" where
  "is_digit c = (c \<in> set ''0123456789'')"

definition digit_val :: "char \<Rightarrow> nat" where
  "digit_val c = of_char c - 48"

definition hex_val :: "char \<Rightarrow> nat option" where
  "hex_val c = map_of (zip ''0123456789abcdefABCDEF''
                 [0, 1, 2, 3, 4, 5, 6, 7, 8, 9, 10, 11, 12, 13, 14, 15, 10, 11, 12, 13, 14, 15]) c"

definition strip_prefix :: "string \<Rightarrow> string \<Rightarrow> string option" where
  "strip_prefix p s = (if take (length p) s = p then Some (drop (length p) s) else None)"

definition parse_digits :: "string \<Rightarrow> (nat \<times> string) option" where
  "parse_digits cs =
     (case takeWhile is_digit cs of
        [] \<Rightarrow> None
      | d # ds \<Rightarrow>
          if d = CHR ''0'' then Some (0, tl cs)
          else Some (foldl (\<lambda>a c. 10 * a + digit_val c) 0 (d # ds), dropWhile is_digit cs))"

definition parse_number :: "string \<Rightarrow> (int \<times> string) option" where
  "parse_number cs =
     (case (case cs of [] \<Rightarrow> None
            | c # r \<Rightarrow> if c = CHR ''-'' then map_option (apfst (\<lambda>n. - int n)) (parse_digits r)
                       else map_option (apfst int) (parse_digits cs)) of
        None \<Rightarrow> None
      | Some (n, rest) \<Rightarrow>
          (case rest of [] \<Rightarrow> Some (n, rest)
           | c # _ \<Rightarrow> if c \<in> set ''.eE'' then None else Some (n, rest)))"

definition unescape :: "char \<Rightarrow> char option" where
  "unescape e = map_of [(dquote, dquote), (backslash, backslash), (CHR ''/'', CHR ''/''),
     (CHR ''b'', CHR 0x08), (CHR ''f'', CHR 0x0C), (CHR ''n'', CHR 0x0A),
     (CHR ''r'', CHR 0x0D), (CHR ''t'', CHR 0x09)] e"

fun parse_string :: "string \<Rightarrow> (string \<times> string) option" where
  "parse_string [] = None"
| "parse_string (c # cs) =
     (if c = dquote then Some ([], cs)
      else if c = backslash then
        (case cs of
           [] \<Rightarrow> None
         | e # r \<Rightarrow>
             if e = CHR ''u'' then
               (case r of
                  a # b # x # y # r' \<Rightarrow>
                    (case (hex_val a, hex_val b, hex_val x, hex_val y) of
                       (Some 0, Some 0, Some h, Some l) \<Rightarrow>
                         map_option (apfst ((#) (char_of (16 * h + l)))) (parse_string r')
                     | _ \<Rightarrow> None)
                | _ \<Rightarrow> None)
             else (case unescape e of
                     None \<Rightarrow> None
                   | Some ch \<Rightarrow> map_option (apfst ((#) ch)) (parse_string r)))
      else if (of_char c :: nat) < 32 then None
      else map_option (apfst ((#) c)) (parse_string cs))"

fun obj_put :: "string \<Rightarrow> jsval \<Rightarrow> (string \<times> jsval) list \<Rightarrow> (string \<times> jsval) list" where
  "obj_put k v kvs =
     (case map_of kvs k of
        None \<Rightarrow> (k, v) # kvs
      | Some v' \<Rightarrow> (k, v') # filter (\<lambda>kv. fst kv \<noteq> k) kvs)"

text \<open>
  One level of the recursive-descent parser, with the parsers for the next level as
  parameters: a value, the elements of an array after its opening bracket, the members
  of an object after its opening brace.
\<close>

definition value_step ::
  "(string \<Rightarrow> (jsval list \<times> string) option)
     \<Rightarrow> (string \<Rightarrow> ((string \<times> jsval) list \<times> string) option)
     \<Rightarrow> string \<Rightarrow> (jsval \<times> string) option" where
  "value_step elements members cs =
     (case skip_ws cs of
        [] \<Rightarrow> None
      | c # r \<Rightarrow>
          if c = CHR ''['' then
            (case skip_ws r of
               [] \<Rightarrow> None
             | d # r' \<Rightarrow> if d = CHR '']'' then Some (JArr [], r')
                         else map_option (apfst JArr) (elements (d # r')))
          else if c = CHR ''{'' then
            (case skip_ws r of
               [] \<Rightarrow> None
             | d # r' \<Rightarrow> if d = CHR ''}'' then Some (JObj [], r')
                         else map_option (apfst JObj) (members (d # r')))
          else if c = CHR ''n'' then map_option (Pair JNull) (strip_prefix ''ull'' r)
          else if c = CHR ''t'' then map_option (Pair (JBool True)) (strip_prefix ''rue'' r)
          else if c = CHR ''f'' then map_option (Pair (JBool False)) (strip_prefix ''alse'' r)
          else if c = dquote then map_option (apfst JStr) (parse_string r)
          else map_option (apfst JNum) (parse_number (c # r)))"

definition elements_step ::
  "(string \<Rightarrow> (jsval \<times> string) option)
     \<Rightarrow> (string \<Rightarrow> (jsval list \<times> string) option)
     \<Rightarrow> string \<Rightarrow> (jsval list \<times> string) option" where
  "elements_step val elements cs =
     (case val cs of
        None \<Rightarrow> None
      | Some (v, r) \<Rightarrow>
          (case skip_ws r of
             [] \<Rightarrow> None
           | d # r' \<Rightarrow>
               if d = CHR '','' then map_option (apfst ((#) v)) (elements r')
               else if d = CHR '']'' then Some ([v], r')
               else None))"

definition members_step ::
  "(string \<Rightarrow> (jsval \<times> string) option)
     \<Rightarrow> (string \<Rightarrow> ((string \<times> jsval) list \<times> string) option)
     \<Rightarrow> string \<Rightarrow> ((string \<times> jsval) list \<times> string) option" where
  "members_step val members cs =
     (case skip_ws cs of
        [] \<Rightarrow> None
      | q # r \<Rightarrow>
          if q \<noteq> dquote then None
          else (case parse_string r of
                  None \<Rightarrow> None
                | Some (k, r1) \<Rightarrow>
                    (case skip_ws r1 of
                       [] \<Rightarrow> None
                     | col # r2 \<Rightarrow>
                         if col \<noteq> CHR '':'' then None
                         else (case val r2 of
                                 None \<Rightarrow> None
                               | Some (v, r3) \<Rightarrow>
                                   (case skip_ws r3 of
                                      [] \<Rightarrow> None
                                    | d # r4 \<Rightarrow>
                                        if d = CHR '','' then
                                          map_option (apfst (obj_put k v)) (members r4)
                                        else if d = CHR ''}'' then Some ([(k, v)], r4)
                                        else None)))))"

text \<open>
  The parser, by recursion on a bound on the nesting depth. \<open>JSON_parse\<close> supplies
  twice the length of the text plus two; no larger bound changes the result (lemma
  \<open>JSON_parse_bound_adequate\<close> below).
\<close>

fun parse_value :: "nat \<Rightarrow> string \<Rightarrow> (jsval \<times> string) option"
  and parse_elements :: "nat \<Rightarrow> string \<Rightarrow> (jsval list \<times> string) option"
  and parse_members :: "nat \<Rightarrow> string \<Rightarrow> ((string \<times> jsval) list \<times> string) option"
where
  "parse_value 0 cs = None"
| "parse_value (Suc n) cs = value_step (parse_elements n) (parse_members n) cs"
| "parse_elements 0 cs = None"
| "parse_elements (Suc n) cs = elements_step (parse_value n) (parse_elements n) cs"
| "parse_members 0 cs = None"
| "parse_members (Suc n) cs = members_step (parse_value n) (parse_members n) cs"

definition JSON_parse :: "string \<Rightarrow> jsval option" where
  "JSON_parse s =
     (case parse_value (2 * length s + 2) s of
        None \<Rightarrow> None
      | Some (v, rest) \<Rightarrow> if skip_ws rest = [] then Some v else None)"

text \<open>A parser is consuming when every successful parse leaves a shorter text.\<close>

definition consuming :: "(string \<Rightarrow> ('a \<times> string) option) \<Rightarrow> bool" where
  "consuming f = (\<forall>s r rest. f s = Some (r, rest) \<longrightarrow> length rest < length s)"

section \<open>Circuit breaker of the cache router (unified-redis.ts)\<close>

text \<open>
  The parameter type \<^verbatim>\<open>'upstash' | 'azure'\<close> of the breaker methods, and the
  type \<^verbatim>\<open>RedisProvider\<close> of the \<^verbatim>\<open>activeProvider\<close> field.
\<close>

datatype cache_provider = Upstash | Azure

datatype redis_provider = P_upstash | P_azure | P_mock | P_none

text \<open>
  \<^verbatim>\<open>interface FailureTracker\<close>. Counters start at 0 and are only ever
  incremented or set to 0, so they are naturals; timestamps are the milliseconds of
  \<^verbatim>\<open>Date.now()\<close>.
\<close>

record failure_tracker =
  upstash :: nat
  azure :: nat
  lastUpstashFailure :: int
  lastAzureFailure :: int

definition MAX_FAILURES :: nat where
  "MAX_FAILURES = 3"

definition FAILURE_RESET_TIME :: int where
  "FAILURE_RESET_TIME = 60000"

text \<open>\<^verbatim>\<open>this.failures[provider]\<close> and the matching last-failure field.\<close>

fun failureCount :: "cache_provider \<Rightarrow> failure_tracker \<Rightarrow> nat" where
  "failureCount Upstash f = upstash f"
| "failureCount Azure f = azure f"

fun lastFailureTimestamp :: "cache_provider \<Rightarrow> failure_tracker \<Rightarrow> int" where
  "lastFailureTimestamp Upstash f = lastUpstashFailure f"
| "lastFailureTimestamp Azure f = lastAzureFailure f"

text \<open>
  \<^verbatim>\<open>recordFailure\<close>: increment the counter, stamp the time. The second argument
  is the value of \<^verbatim>\<open>Date.now()\<close> at the call. (The source then only logs.)
\<close>

fun recordFailure :: "cache_provider \<Rightarrow> int \<Rightarrow> failure_tracker \<Rightarrow> failure_tracker" where
  "recordFailure Upstash t f = f\<lparr>upstash := upstash f + 1, lastUpstashFailure := t\<rparr>"
| "recordFailure Azure t f = f\<lparr>azure := azure f + 1, lastAzureFailure := t\<rparr>"

fun resetFailures :: "cache_provider \<Rightarrow> failure_tracker \<Rightarrow> failure_tracker" where
  "resetFailures Upstash f = f\<lparr>upstash := 0\<rparr>"
| "resetFailures Azure f = f\<lparr>azure := 0\<rparr>"

text \<open>
  \<^verbatim>\<open>isProviderAvailable\<close> returns the answer together with the tracker, which
  it resets when the reset time has passed.
\<close>

definition isProviderAvailable ::
  "cache_provider \<Rightarrow> int \<Rightarrow> failure_tracker \<Rightarrow> bool \<times> failure_tracker" where
  "isProviderAvailable p t f =
     (if failureCount p f < MAX_FAILURES then (True, f)
      else if t - lastFailureTimestamp p f > FAILURE_RESET_TIME
           then (True, resetFailures p f)
           else (False, f))"

section \<open>Circuit breaker of the data-store router (unified-database.ts)\<close>

datatype db_provider = Supabase | AzureDb

text \<open>\<^verbatim>\<open>interface ProviderHealth\<close>.\<close>

record provider_health =
  failures :: nat
  lastFailure :: int
  isCircuitOpen :: bool

definition FAILURE_THRESHOLD :: nat where
  "FAILURE_THRESHOLD = 3"

definition CIRCUIT_RESET_TIME :: int where
  "CIRCUIT_RESET_TIME = 60000"

text \<open>The module-level table \<^verbatim>\<open>providerHealth\<close> and its initial value.\<close>

type_synonym health_table = "db_provider \<Rightarrow> provider_health"

definition providerHealth_init :: health_table where
  "providerHealth_init = (\<lambda>_. \<lparr>failures = 0, lastFailure = 0, isCircuitOpen = False\<rparr>)"

definition db_recordFailure :: "db_provider \<Rightarrow> int \<Rightarrow> health_table \<Rightarrow> health_table" where
  "db_recordFailure p t ph =
     (let health = ph p;
          health = health\<lparr>failures := failures health + 1, lastFailure := t\<rparr>;
          health = (if failures health \<ge> FAILURE_THRESHOLD
                    then health\<lparr>isCircuitOpen := True\<rparr> else health)
      in ph(p := health))"

definition db_isProviderAvailable ::
  "db_provider \<Rightarrow> int \<Rightarrow> health_table \<Rightarrow> bool \<times> health_table" where
  "db_isProviderAvailable p t ph =
     (let health = ph p;
          health = (if isCircuitOpen health \<and> t - lastFailure health > CIRCUIT_RESET_TIME
                    then health\<lparr>failures := 0, isCircuitOpen := False\<rparr> else health)
      in (\<not> isCircuitOpen health, ph(p := health)))"

definition db_recordSuccess :: "db_provider \<Rightarrow> health_table \<Rightarrow> health_table" where
  "db_recordSuccess p ph =
     (let health = ph p;
          health = (if failures health > 0 then health\<lparr>failures := 0\<rparr> else health)
      in ph(p := health\<lparr>isCircuitOpen := False\<rparr>))"

text \<open>
  The stored flag agrees with the counter. The data-store breaker reads the flag; this
  predicate is what relates it to the counter.
\<close>

definition flag_consistent :: "provider_health \<Rightarrow> bool" where
  "flag_consistent h = (isCircuitOpen h = (failures h \<ge> FAILURE_THRESHOLD))"

section \<open>The provider clients (environment of the cache router)\<close>

text \<open>
  The two drivers (\<^verbatim>\<open>@upstash/redis\<close>, \<^verbatim>\<open>ioredis\<close>) and the servers behind
  them are not code of the repository. A client is modelled by what the router can
  observe of it: a call either throws or returns a reply.
  \<^item> \<open>entries\<close>: the provider's own key space, each value with an optional expiry
    instant. The two providers never share it: the router performs no replication.
  \<^item> \<open>failing\<close>: while set, every call throws (outage, timeout).
  \<^item> \<open>latency\<close>: the milliseconds a call takes, whether it returns or throws.
  \<^item> \<open>calls\<close>: the number of calls the client has received.
  \<^item> \<open>answers\<close>: the reply to a command whose effect on the key space is not
    modelled (\<^verbatim>\<open>incr\<close>, \<^verbatim>\<open>expire\<close>, \<^verbatim>\<open>ttl\<close>, \<^verbatim>\<open>exists\<close>,
    \<^verbatim>\<open>keys\<close>, \<^verbatim>\<open>eval\<close>, \<^verbatim>\<open>sadd\<close>, \<^verbatim>\<open>srem\<close>).
  The secondary's driver takes and returns text. The primary's driver takes and
  returns JavaScript values and serializes on its own, in a way the repository does not
  show: its key space is modelled as holding the values it was given, and
  \<open>handsBack c v\<close> is what the driver returns on a read of an entry written with the
  value \<open>v\<close>. No statement below assumes anything about \<open>handsBack\<close> that it
  does not say.
\<close>

datatype request =
    INCR string
  | EXPIRE string int
  | TTL string
  | EXISTS string
  | KEYS string
  | EVAL string "string list" "string list"
  | SADD string "string list"
  | SREM string "string list"

record 'v client =
  entries :: "string \<rightharpoonup> 'v \<times> int option"
  failing :: bool
  latency :: nat
  calls :: nat
  answers :: "request \<Rightarrow> jsval"

record upstash_client = "jsval client" +
  handsBack :: "jsval \<Rightarrow> jsval"

definition lookup_live :: "string \<Rightarrow> int \<Rightarrow> ('v, 'z) client_scheme \<Rightarrow> 'v option" where
  "lookup_live k t c =
     (case entries c k of
        None \<Rightarrow> None
      | Some (v, None) \<Rightarrow> Some v
      | Some (v, Some e) \<Rightarrow> if t < e then Some v else None)"

definition is_live :: "string \<Rightarrow> int \<Rightarrow> ('v, 'z) client_scheme \<Rightarrow> bool" where
  "is_live k t c = (case lookup_live k t c of None \<Rightarrow> False | Some _ \<Rightarrow> True)"

text \<open>
  The commands, run at instant \<open>t\<close>. The reply \<open>None\<close> is a thrown error:
  a server rejects \<^verbatim>\<open>SETEX\<close> with a non-positive expiry.
\<close>

definition cmd_get ::
  "string \<Rightarrow> int \<Rightarrow> ('v, 'z) client_scheme
     \<Rightarrow> 'v option option \<times> ('v, 'z) client_scheme" where
  "cmd_get k t c = (Some (lookup_live k t c), c)"

text \<open>
  A read through the primary's driver: \<^verbatim>\<open>null\<close> for a missing key, otherwise what
  the driver hands back.
\<close>

definition upstash_get ::
  "string \<Rightarrow> int \<Rightarrow> upstash_client \<Rightarrow> jsval option \<times> upstash_client" where
  "upstash_get k t c =
     (Some (case lookup_live k t c of None \<Rightarrow> JNull | Some v \<Rightarrow> handsBack c v), c)"

definition cmd_set ::
  "string \<Rightarrow> 'v \<Rightarrow> int \<Rightarrow> ('v, 'z) client_scheme
     \<Rightarrow> jsval option \<times> ('v, 'z) client_scheme" where
  "cmd_set k v t c = (Some (JStr ''OK''), c\<lparr>entries := (entries c)(k \<mapsto> (v, None))\<rparr>)"

definition cmd_setex ::
  "string \<Rightarrow> int \<Rightarrow> 'v \<Rightarrow> int \<Rightarrow> ('v, 'z) client_scheme
     \<Rightarrow> jsval option \<times> ('v, 'z) client_scheme" where
  "cmd_setex k seconds v t c =
     (if seconds \<le> 0 then (None, c)
      else (Some (JStr ''OK''),
            c\<lparr>entries := (entries c)(k \<mapsto> (v, Some (t + seconds * 1000)))\<rparr>))"

definition cmd_del ::
  "string list \<Rightarrow> int \<Rightarrow> ('v, 'z) client_scheme
     \<Rightarrow> jsval option \<times> ('v, 'z) client_scheme" where
  "cmd_del ks t c =
     (Some (JNum (int (length (filter (\<lambda>k. is_live k t c) (remdups ks))))),
      c\<lparr>entries := (\<lambda>k. if k \<in> set ks then None else entries c k)\<rparr>)"

definition cmd_other ::
  "request \<Rightarrow> int \<Rightarrow> ('v, 'z) client_scheme
     \<Rightarrow> jsval option \<times> ('v, 'z) client_scheme" where
  "cmd_other req t c = (Some (answers c req), c)"

text \<open>One call on a client: counted, and thrown while the client is failing.\<close>

definition invoke ::
  "(('v, 'z) client_scheme \<Rightarrow> 'r option \<times> ('v, 'z) client_scheme)
     \<Rightarrow> ('v, 'z) client_scheme \<Rightarrow> 'r option \<times> ('v, 'z) client_scheme" where
  "invoke cmd c =
     (let c1 = c\<lparr>calls := calls c + 1\<rparr>
      in if failing c then (None, c1) else cmd c1)"

section \<open>The cache router (class UnifiedRedis)\<close>

text \<open>
  The fields of the class, with the two readings of the environment its methods make:
  \<open>now\<close> is \<^verbatim>\<open>Date.now()\<close> and \<open>production\<close> is
  \<^verbatim>\<open>process.env.NODE_ENV === 'production'\<close>. The field \<^verbatim>\<open>failures\<close> of
  the class is named \<open>failureTracker\<close> here, after its type.
\<close>

record unified_redis =
  upstashClient :: "upstash_client option"
  azureClient :: "string client option"
  activeProvider :: redis_provider
  failureTracker :: failure_tracker
  now :: int
  production :: bool

text \<open>
  \<^verbatim>\<open>initialize\<close>; its two arguments are the results of
  \<^verbatim>\<open>createUpstashClient()\<close> and \<^verbatim>\<open>createAzureClient()\<close>, which return
  \<^verbatim>\<open>null\<close> when the provider is not configured or the driver cannot be built.
\<close>

definition initialize ::
  "upstash_client option \<Rightarrow> string client option \<Rightarrow> unified_redis \<Rightarrow> unified_redis" where
  "initialize createdUpstash createdAzure s =
     (let s = s\<lparr>upstashClient := createdUpstash\<rparr>;
          s = s\<lparr>azureClient := createdAzure\<rparr>
      in s\<lparr>activeProvider :=
             (case upstashClient s of
                Some _ \<Rightarrow> P_upstash
              | None \<Rightarrow> (case azureClient s of Some _ \<Rightarrow> P_azure | None \<Rightarrow> P_mock))\<rparr>)"

text \<open>
  The constructor: the field initialisers, then \<^verbatim>\<open>initialize\<close>. (Its
  \<^verbatim>\<open>catch\<close> branch, which selects \<^verbatim>\<open>'mock'\<close>, is dead in the model:
  nothing \<^verbatim>\<open>initialize\<close> does can throw, the two creators catch their own errors.)
\<close>

definition construct ::
  "upstash_client option \<Rightarrow> string client option \<Rightarrow> int \<Rightarrow> bool \<Rightarrow> unified_redis" where
  "construct createdUpstash createdAzure t isProduction =
     initialize createdUpstash createdAzure
       \<lparr>upstashClient = None, azureClient = None, activeProvider = P_none,
        failureTracker = \<lparr>upstash = 0, azure = 0, lastUpstashFailure = 0, lastAzureFailure = 0\<rparr>,
        now = t, production = isProduction\<rparr>"

text \<open>
  Every operation of the class is written as the same two blocks, one per provider:
  \<^verbatim>\<open>
  if (this.upstashClient && this.isProviderAvailable('upstash')) {
    try { const result = await this.upstashClient.CMD(...);
          this.resetFailures('upstash'); return result; }
    catch (error) { this.recordFailure('upstash'); }
  }
  \<close>
  \<open>tryUpstash\<close> and \<open>tryAzure\<close> are that block. The result \<open>None\<close> means that
  control falls through to what follows the block: the client is \<^verbatim>\<open>null\<close>
  (then the breaker is not even asked, \<^verbatim>\<open>&&\<close> short-circuits), the breaker said
  no, or the call threw. The clock advances by the latency of the call.
\<close>

definition tryUpstash ::
  "(int \<Rightarrow> upstash_client \<Rightarrow> 'r option \<times> upstash_client) \<Rightarrow> unified_redis
     \<Rightarrow> 'r option \<times> unified_redis" where
  "tryUpstash cmd s =
     (case upstashClient s of
        None \<Rightarrow> (None, s)
      | Some c \<Rightarrow>
          (case isProviderAvailable Upstash (now s) (failureTracker s) of
             (available, f) \<Rightarrow>
               if \<not> available then (None, s\<lparr>failureTracker := f\<rparr>)
               else
                 (case invoke (cmd (now s)) c of
                    (reply, c') \<Rightarrow>
                      (let t' = now s + int (latency c)
                       in case reply of
                            Some result \<Rightarrow>
                              (Some result,
                               s\<lparr>upstashClient := Some c', now := t',
                                 failureTracker := resetFailures Upstash f\<rparr>)
                          | None \<Rightarrow>
                              (None,
                               s\<lparr>upstashClient := Some c', now := t',
                                 failureTracker := recordFailure Upstash t' f\<rparr>)))))"

definition tryAzure ::
  "(int \<Rightarrow> string client \<Rightarrow> 'r option \<times> string client) \<Rightarrow> unified_redis
     \<Rightarrow> 'r option \<times> unified_redis" where
  "tryAzure cmd s =
     (case azureClient s of
        None \<Rightarrow> (None, s)
      | Some c \<Rightarrow>
          (case isProviderAvailable Azure (now s) (failureTracker s) of
             (available, f) \<Rightarrow>
               if \<not> available then (None, s\<lparr>failureTracker := f\<rparr>)
               else
                 (case invoke (cmd (now s)) c of
                    (reply, c') \<Rightarrow>
                      (let t' = now s + int (latency c)
                       in case reply of
                            Some result \<Rightarrow>
                              (Some result,
                               s\<lparr>azureClient := Some c', now := t',
                                 failureTracker := resetFailures Azure f\<rparr>)
                          | None \<Rightarrow>
                              (None,
                               s\<lparr>azureClient := Some c', now := t',
                                 failureTracker := recordFailure Azure t' f\<rparr>)))))"

text \<open>
  The shape shared by the operations that hand the provider's reply back unchanged:
  primary block, secondary block, then the code after both blocks.
\<close>

definition withFailover ::
  "(int \<Rightarrow> upstash_client \<Rightarrow> 'r option \<times> upstash_client)
     \<Rightarrow> (int \<Rightarrow> string client \<Rightarrow> 'r option \<times> string client)
     \<Rightarrow> (unified_redis \<Rightarrow> 'e + 'r) \<Rightarrow> unified_redis \<Rightarrow> ('e + 'r) \<times> unified_redis" where
  "withFailover cmdUpstash cmdAzure bothFailed s =
     (case tryUpstash cmdUpstash s of
        (Some result, s1) \<Rightarrow> (Inr result, s1)
      | (None, s1) \<Rightarrow>
          (case tryAzure cmdAzure s1 of
             (Some result, s2) \<Rightarrow> (Inr result, s2)
           | (None, s2) \<Rightarrow> (bothFailed s2, s2)))"

datatype error = Redis_unavailable | Eval_failed

text \<open>
  \<^verbatim>\<open>get\<close>. The primary's reply is returned as it is. The secondary's reply is text or \<^verbatim>\<open>null\<close>: \<^verbatim>\<open>if (!value) return null\<close>
  catches \<^verbatim>\<open>null\<close> and the empty text, then \<^verbatim>\<open>JSON.parse\<close> is tried and the
  text returned verbatim when it throws. The method never throws.
\<close>

definition decodeAzure :: "string option \<Rightarrow> jsval" where
  "decodeAzure value =
     (case value of
        None \<Rightarrow> JNull
      | Some text \<Rightarrow>
          if text = [] then JNull
          else (case JSON_parse text of Some v \<Rightarrow> v | None \<Rightarrow> JStr text))"

definition get :: "string \<Rightarrow> unified_redis \<Rightarrow> jsval \<times> unified_redis" where
  "get key s =
     (case tryUpstash (upstash_get key) s of
        (Some value, s1) \<Rightarrow> (value, s1)
      | (None, s1) \<Rightarrow>
          (case tryAzure (cmd_get key) s1 of
             (Some value, s2) \<Rightarrow> (decodeAzure value, s2)
           | (None, s2) \<Rightarrow> (JNull, s2)))"

text \<open>
  \<^verbatim>\<open>typeof value === 'string' ? value : JSON.stringify(value)\<close>, and the test
  \<^verbatim>\<open>options?.ex\<close>, which a missing option and the number 0 both fail.
\<close>

definition stringValue :: "jsval \<Rightarrow> string" where
  "stringValue value = (case value of JStr text \<Rightarrow> text | _ \<Rightarrow> JSON_stringify value)"

definition optionsEx :: "int option \<Rightarrow> int option" where
  "optionsEx options =
     (case options of None \<Rightarrow> None | Some ex \<Rightarrow> if ex \<noteq> 0 then Some ex else None)"

definition set_op ::
  "string \<Rightarrow> jsval \<Rightarrow> int option \<Rightarrow> unified_redis \<Rightarrow> (error + jsval) \<times> unified_redis" where
  "set_op key value options s =
     withFailover
       (case optionsEx options of
          Some ex \<Rightarrow> cmd_setex key ex value
        | None \<Rightarrow> cmd_set key value)
       (case optionsEx options of
          Some ex \<Rightarrow> cmd_setex key ex (stringValue value)
        | None \<Rightarrow> cmd_set key (stringValue value))
       (\<lambda>s'. if production s' then Inl Redis_unavailable else Inr (JStr ''OK'')) s"

text \<open>\<^verbatim>\<open>del(key: string | string[])\<close> and the remaining operations.\<close>

datatype key_arg = One string | Many "string list"

definition del :: "key_arg \<Rightarrow> unified_redis \<Rightarrow> (error + jsval) \<times> unified_redis" where
  "del key s =
     (let keys = (case key of Many ks \<Rightarrow> ks | One k \<Rightarrow> [k])
      in withFailover (cmd_del keys) (cmd_del keys) (\<lambda>_. Inr (JNum 0)) s)"

definition incr :: "string \<Rightarrow> unified_redis \<Rightarrow> (error + jsval) \<times> unified_redis" where
  "incr key s =
     withFailover (cmd_other (INCR key)) (cmd_other (INCR key)) (\<lambda>_. Inr (JNum 0)) s"

definition expire :: "string \<Rightarrow> int \<Rightarrow> unified_redis \<Rightarrow> (error + jsval) \<times> unified_redis" where
  "expire key seconds s =
     withFailover (cmd_other (EXPIRE key seconds)) (cmd_other (EXPIRE key seconds))
       (\<lambda>_. Inr (JNum 0)) s"

definition ttl :: "string \<Rightarrow> unified_redis \<Rightarrow> (error + jsval) \<times> unified_redis" where
  "ttl key s =
     withFailover (cmd_other (TTL key)) (cmd_other (TTL key)) (\<lambda>_. Inr (JNum (- 1))) s"

definition exists :: "string \<Rightarrow> unified_redis \<Rightarrow> (error + jsval) \<times> unified_redis" where
  "exists key s =
     withFailover (cmd_other (EXISTS key)) (cmd_other (EXISTS key)) (\<lambda>_. Inr (JNum 0)) s"

definition setex ::
  "string \<Rightarrow> int \<Rightarrow> jsval \<Rightarrow> unified_redis \<Rightarrow> (error + jsval) \<times> unified_redis" where
  "setex key seconds value s =
     withFailover (cmd_setex key seconds value) (cmd_setex key seconds (stringValue value))
       (\<lambda>_. Inr (JStr ''OK'')) s"

definition keys :: "string \<Rightarrow> unified_redis \<Rightarrow> (error + jsval) \<times> unified_redis" where
  "keys pattern s =
     withFailover (cmd_other (KEYS pattern)) (cmd_other (KEYS pattern)) (\<lambda>_. Inr (JArr [])) s"

definition eval ::
  "string \<Rightarrow> string list \<Rightarrow> string list \<Rightarrow> unified_redis
     \<Rightarrow> (error + jsval) \<times> unified_redis" where
  "eval script ks args s =
     withFailover (cmd_other (EVAL script ks args)) (cmd_other (EVAL script ks args))
       (\<lambda>s'. if production s' then Inl Eval_failed else Inr JNull) s"

definition sadd ::
  "string \<Rightarrow> string list \<Rightarrow> unified_redis \<Rightarrow> (error + jsval) \<times> unified_redis" where
  "sadd key members s =
     withFailover (cmd_other (SADD key members)) (cmd_other (SADD key members))
       (\<lambda>_. Inr (JNum 0)) s"

definition srem ::
  "string \<Rightarrow> string list \<Rightarrow> unified_redis \<Rightarrow> (error + jsval) \<times> unified_redis" where
  "srem key members s =
     withFailover (cmd_other (SREM key members)) (cmd_other (SREM key members))
       (\<lambda>_. Inr (JNum 0)) s"

text \<open>
  \<^verbatim>\<open>getActiveProvider\<close> and \<^verbatim>\<open>getHealthStatus\<close>. The object literal is
  evaluated left to right, so each \<^verbatim>\<open>failures\<close> entry is read after the
  availability check of its provider has run.
\<close>

definition getActiveProvider :: "unified_redis \<Rightarrow> redis_provider" where
  "getActiveProvider s = activeProvider s"

record provider_status =
  configured :: bool
  available :: bool
  reportedFailures :: nat

record health_status =
  active :: redis_provider
  upstashStatus :: provider_status
  azureStatus :: provider_status

definition getHealthStatus :: "unified_redis \<Rightarrow> health_status \<times> unified_redis" where
  "getHealthStatus s =
     (case isProviderAvailable Upstash (now s) (failureTracker s) of
        (availableUpstash, f1) \<Rightarrow>
          (let failuresUpstash = upstash f1
           in case isProviderAvailable Azure (now s) f1 of
                (availableAzure, f2) \<Rightarrow>
                  (\<lparr>active = activeProvider s,
                    upstashStatus =
                      \<lparr>configured = (case upstashClient s of Some _ \<Rightarrow> True | None \<Rightarrow> False),
                       available = availableUpstash, reportedFailures = failuresUpstash\<rparr>,
                    azureStatus =
                      \<lparr>configured = (case azureClient s of Some _ \<Rightarrow> True | None \<Rightarrow> False),
                       available = availableAzure, reportedFailures = azure f2\<rparr>\<rparr>,
                   s\<lparr>failureTracker := f2\<rparr>)))"

text \<open>\<^verbatim>\<open>healthCheck\<close>: a set, a get and a del on a fresh key.\<close>

datatype health = Healthy | Degraded | Unhealthy

record health_report =
  status :: health
  measuredLatency :: "int option"
  provider :: redis_provider
  details :: health_status

definition healthCheck :: "unified_redis \<Rightarrow> health_report \<times> unified_redis" where
  "healthCheck s =
     (let startTime = now s;
          testKey = ''health:check:'' @ string_of_int (now s)
      in case set_op testKey (JStr ''ok'') (Some 10) s of
           (Inl _, s1) \<Rightarrow>
             (case getHealthStatus s1 of
                (h, s2) \<Rightarrow>
                  (\<lparr>status = Unhealthy, measuredLatency = None,
                    provider = activeProvider s1, details = h\<rparr>, s2))
         | (Inr _, s1) \<Rightarrow>
             (case get testKey s1 of
                (result, s2) \<Rightarrow>
                  (case del (One testKey) s2 of
                     (_, s3) \<Rightarrow>
                       (let elapsed = now s3 - startTime
                        in case getHealthStatus s3 of
                             (h, s4) \<Rightarrow>
                               (\<lparr>status = (if result = JStr ''ok'' then Healthy else Degraded),
                                 measuredLatency = Some elapsed,
                                 provider = activeProvider s4, details = h\<rparr>, s4)))))"

text \<open>
  The two handlers the constructor registers on the secondary's driver:
  \<^verbatim>\<open>client.on('error', ...)\<close> records a failure, \<^verbatim>\<open>client.on('connect', ...)\<close>
  resets the counter.
\<close>

definition onAzureError :: "unified_redis \<Rightarrow> unified_redis" where
  "onAzureError s = s\<lparr>failureTracker := recordFailure Azure (now s) (failureTracker s)\<rparr>"

definition onAzureConnect :: "unified_redis \<Rightarrow> unified_redis" where
  "onAzureConnect s = s\<lparr>failureTracker := resetFailures Azure (failureTracker s)\<rparr>"

text \<open>
  The public operations as data, to speak of "any operation" and of sequences of
  calls; \<open>perform\<close> gives the state an operation leaves. Between two calls the
  environment lets time pass (\<open>elapse\<close>).
\<close>

datatype operation =
    Get string
  | Set string jsval "int option"
  | Del key_arg
  | Incr string
  | Expire string int
  | Ttl string
  | Exists string
  | Setex string int jsval
  | Keys string
  | Eval string "string list" "string list"
  | Sadd string "string list"
  | Srem string "string list"
  | GetActiveProvider
  | GetHealthStatus
  | HealthCheck

fun perform :: "operation \<Rightarrow> unified_redis \<Rightarrow> unified_redis" where
  "perform (Get k) s = snd (get k s)"
| "perform (Set k v ex) s = snd (set_op k v ex s)"
| "perform (Del k) s = snd (del k s)"
| "perform (Incr k) s = snd (incr k s)"
| "perform (Expire k n) s = snd (expire k n s)"
| "perform (Ttl k) s = snd (ttl k s)"
| "perform (Exists k) s = snd (exists k s)"
| "perform (Setex k n v) s = snd (setex k n v s)"
| "perform (Keys p) s = snd (keys p s)"
| "perform (Eval sc ks as) s = snd (eval sc ks as s)"
| "perform (Sadd k ms) s = snd (sadd k ms s)"
| "perform (Srem k ms) s = snd (srem k ms s)"
| "perform GetActiveProvider s = s"
| "perform GetHealthStatus s = snd (getHealthStatus s)"
| "perform HealthCheck s = snd (healthCheck s)"

definition elapse :: "nat \<Rightarrow> unified_redis \<Rightarrow> unified_redis" where
  "elapse d s = s\<lparr>now := now s + int d\<rparr>"

text \<open>The environment starts or ends an outage of a provider.\<close>

fun outage :: "cache_provider \<Rightarrow> bool \<Rightarrow> unified_redis \<Rightarrow> unified_redis" where
  "outage Upstash b s = s\<lparr>upstashClient := map_option (\<lambda>c. c\<lparr>failing := b\<rparr>) (upstashClient s)\<rparr>"
| "outage Azure b s = s\<lparr>azureClient := map_option (\<lambda>c. c\<lparr>failing := b\<rparr>) (azureClient s)\<rparr>"

text \<open>A run: calls separated by pauses, the pause before each call given with it.\<close>

fun run :: "(nat \<times> operation) list \<Rightarrow> unified_redis \<Rightarrow> unified_redis" where
  "run [] s = s"
| "run ((d, op) # rest) s = run rest (perform op (elapse d s))"

text \<open>The number of calls a provider's client has received; 0 without a client.\<close>

fun callsReceived :: "cache_provider \<Rightarrow> unified_redis \<Rightarrow> nat" where
  "callsReceived Upstash s = (case upstashClient s of None \<Rightarrow> 0 | Some c \<Rightarrow> calls c)"
| "callsReceived Azure s = (case azureClient s of None \<Rightarrow> 0 | Some c \<Rightarrow> calls c)"

section \<open>The data-store router: connection teardown (unified-database.ts)\<close>

text \<open>
  The two module-level Prisma clients with the breaker table. Of a Prisma client the
  model keeps whether it is connected and how often \<^verbatim>\<open>$disconnect()\<close> was invoked
  on it. \<^verbatim>\<open>$disconnect\<close> of the router collects one promise per existing client;
  the list returned here names the clients it invoked, in order.
\<close>

record prisma_client =
  connected :: bool
  disconnects :: nat

record database =
  supabaseClient :: "prisma_client option"
  azureDbClient :: "prisma_client option"
  providerHealth :: health_table

definition prisma_disconnect :: "prisma_client \<Rightarrow> prisma_client" where
  "prisma_disconnect c = c\<lparr>connected := False, disconnects := disconnects c + 1\<rparr>"

definition db_disconnect :: "database \<Rightarrow> db_provider list \<times> database" where
  "db_disconnect s =
     (let promises = [];
          (promises, s) =
            (case supabaseClient s of
               Some c \<Rightarrow> (promises @ [Supabase], s\<lparr>supabaseClient := Some (prisma_disconnect c)\<rparr>)
             | None \<Rightarrow> (promises, s));
          (promises, s) =
            (case azureDbClient s of
               Some c \<Rightarrow> (promises @ [AzureDb], s\<lparr>azureDbClient := Some (prisma_disconnect c)\<rparr>)
             | None \<Rightarrow> (promises, s))
      in (promises, s))"

text \<open>
  The breaker states the data-store router can be in: the initial table, changed only
  by the three breaker functions, at any instants and in any order.
\<close>

inductive reachable :: "health_table \<Rightarrow> bool" where
  init: "reachable providerHealth_init"
| failure: "reachable ph \<Longrightarrow> reachable (db_recordFailure p t ph)"
| success: "reachable ph \<Longrightarrow> reachable (db_recordSuccess p ph)"
| query: "reachable ph \<Longrightarrow> reachable (snd (db_isProviderAvailable p t ph))"

text \<open>The entry of a provider in a health status.\<close>

fun statusOf :: "cache_provider \<Rightarrow> health_status \<Rightarrow> provider_status" where
  "statusOf Upstash h = upstashStatus h"
| "statusOf Azure h = azureStatus h"







text \<open>
  Clients for the concrete scenarios: empty key space, 40 ms per call, in an outage or
  not; the sample primary hands back what it was given.
\<close>

definition sampleClient :: "bool \<Rightarrow> 'v client" where
  "sampleClient down =
     \<lparr>entries = Map.empty, failing = down, latency = 40, calls = 0, answers = (\<lambda>_. JNull)\<rparr>"

definition sampleUpstash :: "bool \<Rightarrow> upstash_client" where
  "sampleUpstash down =
     \<lparr>entries = Map.empty, failing = down, latency = 40, calls = 0, answers = (\<lambda>_. JNull),
      handsBack = (\<lambda>v. v)\<rparr>"

text \<open>
  What an observer sees of one provider's breaker and client: \<open>untouched p s s'\<close> says
  that between \<open>s\<close> and \<open>s'\<close> the provider's counter and last-failure stamp did not
  change and its client received no call.
\<close>

definition untouched :: "cache_provider \<Rightarrow> unified_redis \<Rightarrow> unified_redis \<Rightarrow> bool" where
  "untouched p s s' =
     (failureCount p (failureTracker s') = failureCount p (failureTracker s)
      \<and> lastFailureTimestamp p (failureTracker s') = lastFailureTimestamp p (failureTracker s)
      \<and> callsReceived p s' = callsReceived p s)"


section \<open>Verified properties\<close>

subsection \<open>The bound of the JSON parser\<close>

lemma skip_ws_length: "length (skip_ws s) \<le> length s"
  by (simp add: skip_ws_def length_dropWhile_le)

lemma strip_prefix_length: "strip_prefix p r = Some r' \<Longrightarrow> length r' \<le> length r"
  by (auto simp: strip_prefix_def split: if_splits)

lemma parse_string_length: "parse_string r = Some (k, r') \<Longrightarrow> length r' < length r"
proof (induction r arbitrary: k r' rule: parse_string.induct)
  case 1
  then show ?case by simp
next
  case (2 c cs)
  show ?case
  proof (cases "c = dquote")
    case True
    with "2.prems" show ?thesis by simp
  next
    case nq: False
    show ?thesis
    proof (cases "c = backslash")
      case False
      with nq "2.prems" "2.IH"(3) show ?thesis
        by (fastforce split: if_splits)
    next
      case bs: True
      then obtain e r where cs: "cs = e # r"
        using nq "2.prems" by (cases cs) auto
      show ?thesis
      proof (cases "e = CHR ''u''")
        case False
        with nq bs cs "2.prems" "2.IH"(2) show ?thesis
          by (fastforce split: option.splits)
      next
        case True
        with nq bs cs "2.prems" "2.IH"(1) show ?thesis
          by (fastforce split: list.splits option.splits nat.splits)
      qed
    qed
  qed
qed

lemma parse_digits_length: "parse_digits cs = Some (n, rest) \<Longrightarrow> length rest < length cs"
  by (cases cs)
     (auto simp: parse_digits_def split: list.splits if_splits
        intro: le_imp_less_Suc length_dropWhile_le)

lemma parse_number_length: "parse_number cs = Some (n, rest) \<Longrightarrow> length rest < length cs"
  by (cases cs)
     (auto simp: parse_number_def split: list.splits if_splits option.splits
        dest!: parse_digits_length)


text \<open>Every successful parse consumes at least one character.\<close>

lemma consumingD: "consuming f \<Longrightarrow> f s = Some (r, rest) \<Longrightarrow> length rest < length s"
  by (auto simp: consuming_def)

lemma skip_ws_Cons_length: "skip_ws s = c # r \<Longrightarrow> length r < length s"
  using skip_ws_length [of s] by simp

lemma value_step_consuming:
  assumes "consuming elements" and "consuming members"
  shows "consuming (value_step elements members)"
  unfolding consuming_def
proof (intro allI impI)
  fix s r rest
  assume a: "value_step elements members s = Some (r, rest)"
  then obtain c t where c: "skip_ws s = c # t"
    by (cases "skip_ws s") (auto simp: value_step_def)
  have t: "length t < length s"
    using c by (rule skip_ws_Cons_length)
  consider (arr) "c = CHR ''[''" | (obj) "c = CHR ''{''" | (other) "c \<noteq> CHR ''[''" "c \<noteq> CHR ''{''"
    by blast
  then show "length rest < length s"
  proof cases
    case arr
    then obtain d t' where d: "skip_ws t = d # t'"
      using a c by (cases "skip_ws t") (auto simp: value_step_def)
    have "length t' < length t" using d by (rule skip_ws_Cons_length)
    moreover have "length rest \<le> length (d # t')"
      using a c d arr consumingD [OF assms(1), of "d # t'"]
      by (auto simp: value_step_def split: if_splits)
    ultimately show ?thesis using t by simp
  next
    case obj
    then obtain d t' where d: "skip_ws t = d # t'"
      using a c by (cases "skip_ws t") (auto simp: value_step_def)
    have "length t' < length t" using d by (rule skip_ws_Cons_length)
    moreover have "length rest \<le> length (d # t')"
      using a c d obj consumingD [OF assms(2), of "d # t'"]
      by (auto simp: value_step_def split: if_splits)
    ultimately show ?thesis using t by simp
  next
    case other
    have "length rest \<le> length t"
      using a c other
      by (auto simp: value_step_def split: if_splits
          dest!: strip_prefix_length parse_string_length parse_number_length)
    then show ?thesis using t by simp
  qed
qed

lemma elements_step_consuming:
  assumes "consuming val" and "consuming elements"
  shows "consuming (elements_step val elements)"
  unfolding consuming_def
proof (intro allI impI)
  fix s r rest
  assume a: "elements_step val elements s = Some (r, rest)"
  then obtain v t where v: "val s = Some (v, t)"
    by (cases "val s") (auto simp: elements_step_def)
  have t: "length t < length s"
    using assms(1) v by (rule consumingD)
  obtain d t' where d: "skip_ws t = d # t'"
    using a v by (cases "skip_ws t") (auto simp: elements_step_def)
  have t': "length t' < length t" using d by (rule skip_ws_Cons_length)
  have "length rest \<le> length t'"
    using a v d consumingD [OF assms(2), of t']
    by (auto simp: elements_step_def split: if_splits)
  then show "length rest < length s" using t t' by simp
qed

lemma members_step_consuming:
  assumes "consuming val" and "consuming members"
  shows "consuming (members_step val members)"
  unfolding consuming_def
proof (intro allI impI)
  fix s r rest
  assume a: "members_step val members s = Some (r, rest)"
  then obtain q t where q: "skip_ws s = q # t" "q = dquote"
    by (cases "skip_ws s") (auto simp: members_step_def split: if_splits)
  have t: "length t < length s" using q(1) by (rule skip_ws_Cons_length)
  obtain k t1 where k: "parse_string t = Some (k, t1)"
    using a q by (cases "parse_string t") (auto simp: members_step_def)
  have t1: "length t1 < length t" using k by (rule parse_string_length)
  obtain col t2 where col: "skip_ws t1 = col # t2" "col = CHR '':''"
    using a q k by (cases "skip_ws t1") (auto simp: members_step_def split: if_splits)
  have t2: "length t2 < length t1" using col(1) by (rule skip_ws_Cons_length)
  obtain v t3 where v: "val t2 = Some (v, t3)"
    using a q k col by (cases "val t2") (auto simp: members_step_def)
  have t3: "length t3 < length t2" using assms(1) v by (rule consumingD)
  obtain d t4 where d: "skip_ws t3 = d # t4"
    using a q k col v by (cases "skip_ws t3") (auto simp: members_step_def)
  have t4: "length t4 < length t3" using d by (rule skip_ws_Cons_length)
  have "length rest \<le> length t4"
    using a q k col v d consumingD [OF assms(2), of t4]
    by (auto simp: members_step_def split: if_splits)
  then show "length rest < length s" using t t1 t2 t3 t4 by simp
qed

lemma parse_consuming:
  "consuming (parse_value n) \<and> consuming (parse_elements n) \<and> consuming (parse_members n)"
proof (induction n)
  case 0
  show ?case by (simp add: consuming_def)
next
  case (Suc n)
  have "parse_value (Suc n) = value_step (parse_elements n) (parse_members n)"
    "parse_elements (Suc n) = elements_step (parse_value n) (parse_elements n)"
    "parse_members (Suc n) = members_step (parse_value n) (parse_members n)"
    by (simp_all add: fun_eq_iff)
  then show ?case
    using Suc by (simp add: value_step_consuming elements_step_consuming members_step_consuming)
qed


text \<open>
  A level of the parser depends on the next level only at shorter inputs.
\<close>

lemma skip_ws_Cons_length': "skip_ws s = c # r \<Longrightarrow> length (c # r) \<le> length s"
  using skip_ws_length [of s] by simp

lemma value_step_cong:
  assumes "\<And>t. length t < length s \<Longrightarrow> elements t = elements' t"
    and "\<And>t. length t < length s \<Longrightarrow> members t = members' t"
  shows "value_step elements members s = value_step elements' members' s"
proof (cases "skip_ws s")
  case Nil
  then show ?thesis by (simp add: value_step_def)
next
  case (Cons c t)
  then have t: "length t < length s" by (rule skip_ws_Cons_length)
  show ?thesis
  proof (cases "skip_ws t")
    case Nil
    with Cons show ?thesis by (simp add: value_step_def)
  next
    case inner: (Cons d t')
    then have "length (d # t') < length s"
      using t skip_ws_Cons_length' [OF inner] by simp
    then have "elements (d # t') = elements' (d # t')" "members (d # t') = members' (d # t')"
      using assms by blast+
    with Cons inner show ?thesis by (auto simp: value_step_def)
  qed
qed

lemma elements_step_cong:
  assumes "val s = val' s" and "consuming val"
    and "\<And>t. length t < length s \<Longrightarrow> elements t = elements' t"
  shows "elements_step val elements s = elements_step val' elements' s"
proof (cases "val s")
  case None
  with assms(1) show ?thesis by (simp add: elements_step_def)
next
  case (Some a)
  obtain v t where a: "a = (v, t)" by (cases a)
  have vt: "val s = Some (v, t)" "val' s = Some (v, t)"
    using Some a assms(1) by simp_all
  have t: "length t < length s"
    using assms(2) vt(1) by (rule consumingD)
  show ?thesis
  proof (cases "skip_ws t")
    case Nil
    with vt show ?thesis by (simp add: elements_step_def)
  next
    case (Cons d t')
    then have "length t' < length s"
      using t skip_ws_Cons_length [OF Cons] by simp
    then have "elements t' = elements' t'" by (rule assms(3))
    with vt Cons show ?thesis by (simp add: elements_step_def)
  qed
qed

lemma members_step_cong:
  assumes "\<And>t. length t < length s \<Longrightarrow> val t = val' t" and "consuming val"
    and "\<And>t. length t < length s \<Longrightarrow> members t = members' t"
  shows "members_step val members s = members_step val' members' s"
proof (cases "skip_ws s")
  case Nil
  then show ?thesis by (simp add: members_step_def)
next
  case (Cons q t)
  then have t: "length t < length s" by (rule skip_ws_Cons_length)
  show ?thesis
  proof (cases "parse_string t")
    case None
    with Cons show ?thesis by (simp add: members_step_def)
  next
    case (Some a)
    obtain k t1 where a: "a = (k, t1)" by (cases a)
    have t1: "length t1 < length t"
      using Some a by (auto dest: parse_string_length)
    show ?thesis
    proof (cases "skip_ws t1")
      case Nil
      with Cons Some a show ?thesis by (simp add: members_step_def)
    next
      case colon: (Cons col t2)
      then have t2: "length t2 < length t1" by (rule skip_ws_Cons_length)
      then have same: "val t2 = val' t2"
        using t t1 assms(1) by simp
      show ?thesis
      proof (cases "val t2")
        case None
        then have "val' t2 = None" using same by simp
        with Cons Some a colon None show ?thesis by (simp add: members_step_def)
      next
        case found: (Some b)
        obtain v t3 where b: "b = (v, t3)" by (cases b)
        have vt: "val t2 = Some (v, t3)" "val' t2 = Some (v, t3)"
          using found b same by simp_all
        have t3: "length t3 < length t2"
          using assms(2) vt(1) by (rule consumingD)
        show ?thesis
        proof (cases "skip_ws t3")
          case Nil
          with Cons Some a colon vt show ?thesis by (simp add: members_step_def)
        next
          case sep: (Cons d t4)
          then have "length t4 < length s"
            using t t1 t2 t3 skip_ws_Cons_length [OF sep] by simp
          then have "members t4 = members' t4" by (rule assms(3))
          with Cons Some a colon vt sep show ?thesis by (simp add: members_step_def)
        qed
      qed
    qed
  qed
qed


text \<open>
  Beyond twice the length of the text, a larger bound gives the same result.
\<close>

lemma parse_stable:
  "(\<forall>s. 2 * length s \<le> n \<longrightarrow> parse_value (Suc n) s = parse_value n s)
   \<and> (\<forall>s. 2 * length s + 1 \<le> n \<longrightarrow> parse_elements (Suc n) s = parse_elements n s)
   \<and> (\<forall>s. 2 * length s + 1 \<le> n \<longrightarrow> parse_members (Suc n) s = parse_members n s)"
proof (induction n)
  case 0
  show ?case by (simp add: value_step_def skip_ws_def)
next
  case (Suc n)
  have ihv: "parse_value (Suc n) t = parse_value n t" if "2 * length t \<le> n" for t
    using Suc.IH that by blast
  have ihe: "parse_elements (Suc n) t = parse_elements n t" if "2 * length t + 1 \<le> n" for t
    using Suc.IH that by blast
  have ihm: "parse_members (Suc n) t = parse_members n t" if "2 * length t + 1 \<le> n" for t
    using Suc.IH that by blast
  have v: "parse_value (Suc (Suc n)) s = parse_value (Suc n) s" if b: "2 * length s \<le> Suc n" for s
  proof -
    have "value_step (parse_elements (Suc n)) (parse_members (Suc n)) s
        = value_step (parse_elements n) (parse_members n) s"
    proof (rule value_step_cong)
      fix t :: string
      assume "length t < length s"
      then have bt: "2 * length t + 1 \<le> n" using b by simp
      show "parse_elements (Suc n) t = parse_elements n t"
        using bt by (rule ihe)
      show "parse_members (Suc n) t = parse_members n t"
        using bt by (rule ihm)
    qed
    then show ?thesis by (simp only: parse_value.simps)
  qed
  have e: "parse_elements (Suc (Suc n)) s = parse_elements (Suc n) s"
    if b: "2 * length s + 1 \<le> Suc n" for s
  proof -
    have "elements_step (parse_value (Suc n)) (parse_elements (Suc n)) s
        = elements_step (parse_value n) (parse_elements n) s"
    proof (rule elements_step_cong)
      show "parse_value (Suc n) s = parse_value n s"
        using b by (intro ihv) simp
      show "consuming (parse_value (Suc n))"
        using parse_consuming [of "Suc n"] by blast
    next
      fix t :: string
      assume "length t < length s"
      then have "2 * length t + 1 \<le> n" using b by simp
      then show "parse_elements (Suc n) t = parse_elements n t"
        by (rule ihe)
    qed
    then show ?thesis by (simp only: parse_elements.simps)
  qed
  have m: "parse_members (Suc (Suc n)) s = parse_members (Suc n) s"
    if b: "2 * length s + 1 \<le> Suc n" for s
  proof -
    have "members_step (parse_value (Suc n)) (parse_members (Suc n)) s
        = members_step (parse_value n) (parse_members n) s"
    proof (rule members_step_cong)
      show "consuming (parse_value (Suc n))"
        using parse_consuming [of "Suc n"] by blast
    next
      fix t :: string
      assume "length t < length s"
      then have bt: "2 * length t + 1 \<le> n" "2 * length t \<le> n" using b by simp_all
      show "parse_value (Suc n) t = parse_value n t"
        using bt(2) by (rule ihv)
      show "parse_members (Suc n) t = parse_members n t"
        using bt(1) by (rule ihm)
    qed
    then show ?thesis by (simp only: parse_members.simps)
  qed
  show ?case using v e m by blast
qed

lemma parse_value_beyond:
  "2 * length s \<le> n \<Longrightarrow> parse_value (n + k) s = parse_value n s"
proof (induction k)
  case 0
  show ?case by simp
next
  case (Suc k)
  have "2 * length s \<le> n + k" using Suc.prems by simp
  then have "parse_value (Suc (n + k)) s = parse_value (n + k) s"
    using parse_stable [of "n + k"] by blast
  with Suc show ?case by simp
qed

lemma JSON_parse_bound_adequate:
  assumes "2 * length s + 2 \<le> m"
  shows "(case parse_value m s of
            None \<Rightarrow> None
          | Some (v, rest) \<Rightarrow> if skip_ws rest = [] then Some v else None) = JSON_parse s"
proof -
  obtain k where "m = (2 * length s + 2) + k"
    using assms le_Suc_ex by blast
  then have "parse_value m s = parse_value (2 * length s + 2) s"
    using parse_value_beyond [of s "2 * length s + 2" k] by simp
  then show ?thesis by (simp add: JSON_parse_def)
qed

subsection \<open>The availability check\<close>

text \<open>
  C2. For either provider of the cache router and every breaker state, the availability
  check answers yes while fewer than 3 failures are counted; with 3 or more it answers
  yes, resetting the counter to 0, exactly when more than 60000 ms have passed since the
  last failure, and no otherwise; after three \<open>recordFailure\<close> in a row the
  answer is no as long as no more than 60000 ms have passed since the third. The
  data-store router's check reads its stored flag; for every state in which the flag
  agrees with the counter (every state it can reach, see C7) it obeys the same contract.
\<close>

theorem isAvailable_contract:
  "(failureCount p f < 3 \<longrightarrow> isProviderAvailable p t f = (True, f))
   \<and> (3 \<le> failureCount p f \<and> t - lastFailureTimestamp p f > 60000
        \<longrightarrow> isProviderAvailable p t f = (True, resetFailures p f)
            \<and> failureCount p (resetFailures p f) = 0)
   \<and> (3 \<le> failureCount p f \<and> \<not> t - lastFailureTimestamp p f > 60000
        \<longrightarrow> isProviderAvailable p t f = (False, f))
   \<and> (t - tc \<le> 60000
        \<longrightarrow> \<not> fst (isProviderAvailable p t
                    (recordFailure p tc (recordFailure p tb (recordFailure p ta f)))))
   \<and> (flag_consistent (ph q) \<longrightarrow>
        (failures (ph q) < 3 \<longrightarrow> db_isProviderAvailable q t ph = (True, ph))
      \<and> (3 \<le> failures (ph q) \<and> t - lastFailure (ph q) > 60000
           \<longrightarrow> fst (db_isProviderAvailable q t ph)
               \<and> failures (snd (db_isProviderAvailable q t ph) q) = 0)
      \<and> (3 \<le> failures (ph q) \<and> \<not> t - lastFailure (ph q) > 60000
           \<longrightarrow> db_isProviderAvailable q t ph = (False, ph)))
   \<and> (t - tc \<le> 60000
        \<longrightarrow> \<not> fst (db_isProviderAvailable q t
                    (db_recordFailure q tc (db_recordFailure q tb (db_recordFailure q ta ph)))))"
  by (cases p) (auto simp: isProviderAvailable_def MAX_FAILURES_def FAILURE_RESET_TIME_def
      db_isProviderAvailable_def db_recordFailure_def flag_consistent_def FAILURE_THRESHOLD_def
      CIRCUIT_RESET_TIME_def Let_def)

theorem isAvailable_contract_witness:
  "isProviderAvailable Upstash 5
       \<lparr>upstash = 2, azure = 0, lastUpstashFailure = 4, lastAzureFailure = 0\<rparr>
     = (True, \<lparr>upstash = 2, azure = 0, lastUpstashFailure = 4, lastAzureFailure = 0\<rparr>)
   \<and> isProviderAvailable Azure 70000
       \<lparr>upstash = 0, azure = 3, lastUpstashFailure = 0, lastAzureFailure = 9999\<rparr>
     = (True, \<lparr>upstash = 0, azure = 0, lastUpstashFailure = 0, lastAzureFailure = 9999\<rparr>)
   \<and> isProviderAvailable Azure 69999
       \<lparr>upstash = 0, azure = 3, lastUpstashFailure = 0, lastAzureFailure = 9999\<rparr>
     = (False, \<lparr>upstash = 0, azure = 3, lastUpstashFailure = 0, lastAzureFailure = 9999\<rparr>)
   \<and> \<not> fst (isProviderAvailable Upstash 30
         (recordFailure Upstash 30 (recordFailure Upstash 20 (recordFailure Upstash 10
            \<lparr>upstash = 0, azure = 0, lastUpstashFailure = 0, lastAzureFailure = 0\<rparr>))))
   \<and> flag_consistent (providerHealth_init Supabase)
   \<and> db_isProviderAvailable Supabase 5 providerHealth_init = (True, providerHealth_init)
   \<and> flag_consistent
        ((providerHealth_init
           (AzureDb := \<lparr>failures = 3, lastFailure = 9999, isCircuitOpen = True\<rparr>)) AzureDb)
   \<and> fst (db_isProviderAvailable AzureDb 70000
         (providerHealth_init
           (AzureDb := \<lparr>failures = 3, lastFailure = 9999, isCircuitOpen = True\<rparr>)))
   \<and> \<not> fst (db_isProviderAvailable AzureDb 69999
         (providerHealth_init
           (AzureDb := \<lparr>failures = 3, lastFailure = 9999, isCircuitOpen = True\<rparr>)))
   \<and> \<not> fst (db_isProviderAvailable Supabase 30
         (db_recordFailure Supabase 30 (db_recordFailure Supabase 20
            (db_recordFailure Supabase 10 providerHealth_init))))"
proof -
  let ?open = "providerHealth_init
     (AzureDb := \<lparr>failures = 3, lastFailure = 9999, isCircuitOpen = True\<rparr>)"
  have c0: "flag_consistent (providerHealth_init Supabase)"
    by (simp add: flag_consistent_def providerHealth_init_def FAILURE_THRESHOLD_def)
  have c1: "flag_consistent (?open AzureDb)"
    by (simp add: flag_consistent_def FAILURE_THRESHOLD_def)
  note under = isAvailable_contract
    [where p = Upstash and t = 5 and tc = 5 and q = Supabase and ph = providerHealth_init
       and f = "\<lparr>upstash = 2, azure = 0, lastUpstashFailure = 4, lastAzureFailure = 0\<rparr>"]
  note elapsed = isAvailable_contract
    [where p = Azure and t = 70000 and tc = 70000 and q = AzureDb and ph = ?open
       and f = "\<lparr>upstash = 0, azure = 3, lastUpstashFailure = 0, lastAzureFailure = 9999\<rparr>"]
  note blocked = isAvailable_contract
    [where p = Azure and t = 69999 and tc = 69999 and q = AzureDb and ph = ?open
       and f = "\<lparr>upstash = 0, azure = 3, lastUpstashFailure = 0, lastAzureFailure = 9999\<rparr>"]
  note third = isAvailable_contract
    [where p = Upstash and t = 30 and tc = 30 and tb = 20 and ta = 10 and q = Supabase
       and ph = providerHealth_init
       and f = "\<lparr>upstash = 0, azure = 0, lastUpstashFailure = 0, lastAzureFailure = 0\<rparr>"]
  show ?thesis
    using c0 c1 under elapsed blocked third
    by (simp add: providerHealth_init_def)
qed

subsection \<open>The breaker state\<close>

lemma flag_consistent_init: "flag_consistent (providerHealth_init p)"
  by (simp add: flag_consistent_def providerHealth_init_def FAILURE_THRESHOLD_def)

lemma flag_consistent_recordFailure:
  "flag_consistent (ph q) \<Longrightarrow> flag_consistent (db_recordFailure p t ph q)"
  by (auto simp: flag_consistent_def db_recordFailure_def FAILURE_THRESHOLD_def Let_def)

lemma flag_consistent_recordSuccess:
  "flag_consistent (ph q) \<Longrightarrow> flag_consistent (db_recordSuccess p ph q)"
  by (auto simp: flag_consistent_def db_recordSuccess_def FAILURE_THRESHOLD_def Let_def)

lemma flag_consistent_isProviderAvailable:
  "flag_consistent (ph q) \<Longrightarrow> flag_consistent (snd (db_isProviderAvailable p t ph) q)"
  by (auto simp: flag_consistent_def db_isProviderAvailable_def FAILURE_THRESHOLD_def Let_def)

lemma reachable_flag_consistent: "reachable ph \<Longrightarrow> flag_consistent (ph q)"
proof (induction arbitrary: q rule: reachable.induct)
  case init
  show ?case by (rule flag_consistent_init)
next
  case (failure ph p t)
  then show ?case by (simp add: flag_consistent_recordFailure)
next
  case (success ph p)
  then show ?case by (simp add: flag_consistent_recordSuccess)
next
  case (query ph p t)
  then show ?case by (simp add: flag_consistent_isProviderAvailable)
qed

text \<open>
  C7. In the data-store router, whose breaker stores an open flag, the flag agrees with
  "3 failures or more" in every state the router can reach; a success sets the counter
  to 0 (and clears the flag) in both routers, and a block of the cache router that
  returns a provider's reply leaves that provider's counter at 0; in both routers the
  availability answer is a function of the counter and of the time since the last
  failure alone, so that a breaker whose last failure lies more than 60000 ms back is
  eligible again with no explicit close action.
\<close>

theorem breaker_state_invariant:
  assumes "reachable ph"
  shows "isCircuitOpen (ph q) = (failures (ph q) \<ge> 3)
    \<and> failures (db_recordSuccess q ph q) = 0
    \<and> \<not> isCircuitOpen (db_recordSuccess q ph q)
    \<and> failureCount p (resetFailures p f) = 0
    \<and> (fst (tryUpstash cmdU s) = Some r
         \<longrightarrow> upstash (failureTracker (snd (tryUpstash cmdU s))) = 0)
    \<and> (fst (tryAzure cmdA s) = Some r
         \<longrightarrow> azure (failureTracker (snd (tryAzure cmdA s))) = 0)
    \<and> fst (isProviderAvailable p t f)
        = (failureCount p f < 3 \<or> t - lastFailureTimestamp p f > 60000)
    \<and> fst (db_isProviderAvailable q t ph)
        = (failures (ph q) < 3 \<or> t - lastFailure (ph q) > 60000)
    \<and> (t - lastFailureTimestamp p f > 60000 \<longrightarrow> fst (isProviderAvailable p t f))
    \<and> (t - lastFailure (ph q) > 60000 \<longrightarrow> fst (db_isProviderAvailable q t ph))"
proof -
  have inv: "flag_consistent (ph q)"
    using assms by (rule reachable_flag_consistent)
  have flag: "isCircuitOpen (ph q) = (failures (ph q) \<ge> 3)"
    using inv by (simp add: flag_consistent_def FAILURE_THRESHOLD_def)
  have succ: "failures (db_recordSuccess q ph q) = 0 \<and> \<not> isCircuitOpen (db_recordSuccess q ph q)"
    by (simp add: db_recordSuccess_def Let_def)
  have reset: "failureCount p (resetFailures p f) = 0"
    by (cases p) simp_all
  have served: "fst (tryUpstash cmdU s) = Some r
         \<longrightarrow> upstash (failureTracker (snd (tryUpstash cmdU s))) = 0"
    "fst (tryAzure cmdA s) = Some r
         \<longrightarrow> azure (failureTracker (snd (tryAzure cmdA s))) = 0"
    by (simp_all add: tryUpstash_def tryAzure_def Let_def split: option.splits prod.splits)
  have cache: "fst (isProviderAvailable p t f)
        = (failureCount p f < 3 \<or> t - lastFailureTimestamp p f > 60000)"
    by (auto simp: isProviderAvailable_def MAX_FAILURES_def FAILURE_RESET_TIME_def)
  have store: "fst (db_isProviderAvailable q t ph)
        = (failures (ph q) < 3 \<or> t - lastFailure (ph q) > 60000)"
    using flag by (auto simp: db_isProviderAvailable_def CIRCUIT_RESET_TIME_def Let_def)
  show ?thesis
    using flag succ reset served cache store by simp
qed

theorem breaker_state_invariant_witness:
  "reachable (db_recordFailure Supabase 30 (db_recordFailure Supabase 20
       (db_recordFailure Supabase 10 providerHealth_init)))
   \<and> isCircuitOpen ((db_recordFailure Supabase 30 (db_recordFailure Supabase 20
       (db_recordFailure Supabase 10 providerHealth_init))) Supabase)
   \<and> failures ((db_recordFailure Supabase 30 (db_recordFailure Supabase 20
       (db_recordFailure Supabase 10 providerHealth_init))) Supabase) = 3
   \<and> fst (db_isProviderAvailable Supabase 60031 (db_recordFailure Supabase 30
       (db_recordFailure Supabase 20 (db_recordFailure Supabase 10 providerHealth_init))))
   \<and> fst (isProviderAvailable Azure 60031
       \<lparr>upstash = 0, azure = 7, lastUpstashFailure = 0, lastAzureFailure = 30\<rparr>)
   \<and> fst (tryUpstash (cmd_set ''k'' JNull)
         (construct (Some (sampleUpstash False)) (Some (sampleClient False)) 0 True))
       = Some (JStr ''OK'')
   \<and> upstash (failureTracker (snd (tryUpstash (cmd_set ''k'' JNull)
         (construct (Some (sampleUpstash False)) (Some (sampleClient False)) 0 True)))) = 0
   \<and> fst (tryAzure (cmd_set ''k'' ''v'')
         (construct (Some (sampleUpstash False)) (Some (sampleClient False)) 0 True))
       = Some (JStr ''OK'')
   \<and> azure (failureTracker (snd (tryAzure (cmd_set ''k'' ''v'')
         (construct (Some (sampleUpstash False)) (Some (sampleClient False)) 0 True)))) = 0"
proof -
  let ?ph = "db_recordFailure Supabase 30 (db_recordFailure Supabase 20
       (db_recordFailure Supabase 10 providerHealth_init))"
  let ?s = "construct (Some (sampleUpstash False)) (Some (sampleClient False)) 0 True"
  have r: "reachable ?ph"
    by (intro reachable.failure reachable.init)
  have n: "failures (?ph Supabase) = 3"
    by (simp add: db_recordFailure_def providerHealth_init_def FAILURE_THRESHOLD_def Let_def)
  have l: "lastFailure (?ph Supabase) = 30"
    by (simp add: db_recordFailure_def providerHealth_init_def FAILURE_THRESHOLD_def Let_def)
  have u: "fst (tryUpstash (cmd_set ''k'' JNull) ?s) = Some (JStr ''OK'')"
    and a: "fst (tryAzure (cmd_set ''k'' ''v'') ?s) = Some (JStr ''OK'')"
    by (simp_all add: tryUpstash_def tryAzure_def construct_def initialize_def sampleClient_def
        sampleUpstash_def isProviderAvailable_def MAX_FAILURES_def invoke_def cmd_set_def
        Let_def)
  note w = breaker_state_invariant [OF r, where q = Supabase and p = Azure and t = 60031
      and f = "\<lparr>upstash = 0, azure = 7, lastUpstashFailure = 0, lastAzureFailure = 30\<rparr>"
      and s = ?s and cmdU = "cmd_set ''k'' JNull" and cmdA = "cmd_set ''k'' ''v''"
      and r = "JStr ''OK''"]
  show ?thesis
    using r n l u a w by simp
qed

subsection \<open>Teardown of the data-store router\<close>

text \<open>
  C8. \<^verbatim>\<open>$disconnect\<close> of the data-store router invokes the teardown of every
  client that exists, the primary first, and of no other; it neither reads nor changes
  the breaker table, so the breaker state (one circuit open, both open) makes no
  difference to which clients are torn down.
\<close>

theorem disconnect_both:
  "fst (db_disconnect s)
     = (case supabaseClient s of Some _ \<Rightarrow> [Supabase] | None \<Rightarrow> [])
       @ (case azureDbClient s of Some _ \<Rightarrow> [AzureDb] | None \<Rightarrow> [])
   \<and> supabaseClient (snd (db_disconnect s)) = map_option prisma_disconnect (supabaseClient s)
   \<and> azureDbClient (snd (db_disconnect s)) = map_option prisma_disconnect (azureDbClient s)
   \<and> providerHealth (snd (db_disconnect s)) = providerHealth s
   \<and> fst (db_disconnect (s\<lparr>providerHealth := h\<rparr>)) = fst (db_disconnect s)
   \<and> supabaseClient (snd (db_disconnect (s\<lparr>providerHealth := h\<rparr>)))
       = supabaseClient (snd (db_disconnect s))
   \<and> azureDbClient (snd (db_disconnect (s\<lparr>providerHealth := h\<rparr>)))
       = azureDbClient (snd (db_disconnect s))"
  by (simp add: db_disconnect_def split: option.splits)

subsection \<open>The health query\<close>

text \<open>
  C10. The health query is not read-only: for a provider with 3 or more counted
  failures whose last failure lies more than 60000 ms back, \<^verbatim>\<open>getHealthStatus\<close>
  resets the counter to 0 and reports the provider available (with 0 failures).
\<close>

theorem health_query_resets:
  assumes "3 \<le> failureCount p (failureTracker s)"
    and "now s - lastFailureTimestamp p (failureTracker s) > 60000"
  shows "failureCount p (failureTracker (snd (getHealthStatus s))) = 0
    \<and> available (statusOf p (fst (getHealthStatus s)))
    \<and> reportedFailures (statusOf p (fst (getHealthStatus s))) = 0"
  using assms
  by (cases p)
     (auto simp: getHealthStatus_def isProviderAvailable_def MAX_FAILURES_def
        FAILURE_RESET_TIME_def Let_def split: prod.splits if_splits)

theorem health_query_resets_witness:
  "(3::nat) \<le> failureCount Upstash
       (failureTracker
         \<lparr>upstashClient = None, azureClient = None, activeProvider = P_mock,
          failureTracker =
            \<lparr>upstash = 3, azure = 0, lastUpstashFailure = 1000, lastAzureFailure = 0\<rparr>,
          now = 61001, production = True\<rparr>)
   \<and> failureCount Upstash (failureTracker (snd (getHealthStatus
         \<lparr>upstashClient = None, azureClient = None, activeProvider = P_mock,
          failureTracker =
            \<lparr>upstash = 3, azure = 0, lastUpstashFailure = 1000, lastAzureFailure = 0\<rparr>,
          now = 61001, production = True\<rparr>))) = 0
   \<and> available (statusOf Upstash (fst (getHealthStatus
         \<lparr>upstashClient = None, azureClient = None, activeProvider = P_mock,
          failureTracker =
            \<lparr>upstash = 3, azure = 0, lastUpstashFailure = 1000, lastAzureFailure = 0\<rparr>,
          now = 61001, production = True\<rparr>)))"
  using health_query_resets [where p = Upstash and s =
         "\<lparr>upstashClient = None, azureClient = None, activeProvider = P_mock,
          failureTracker =
            \<lparr>upstash = 3, azure = 0, lastUpstashFailure = 1000, lastAzureFailure = 0\<rparr>,
          now = 61001, production = True\<rparr>"]
  by simp

subsection \<open>The reported active provider\<close>

lemma tryUpstash_activeProvider [simp]:
  "activeProvider (snd (tryUpstash cmd s)) = activeProvider s"
  by (simp add: tryUpstash_def Let_def split: option.splits prod.splits)

lemma tryAzure_activeProvider [simp]:
  "activeProvider (snd (tryAzure cmd s)) = activeProvider s"
  by (simp add: tryAzure_def Let_def split: option.splits prod.splits)

lemma withFailover_activeProvider [simp]:
  "activeProvider (snd (withFailover cu ca bf s)) = activeProvider s"
proof -
  obtain r1 s1 where u: "tryUpstash cu s = (r1, s1)" by (cases "tryUpstash cu s")
  obtain r2 s2 where a: "tryAzure ca s1 = (r2, s2)" by (cases "tryAzure ca s1")
  have "activeProvider s1 = activeProvider s"
    using tryUpstash_activeProvider [of cu s] u by simp
  moreover have "activeProvider s2 = activeProvider s1"
    using tryAzure_activeProvider [of ca s1] a by simp
  ultimately show ?thesis
    using u a by (simp add: withFailover_def split: option.splits)
qed

lemma get_activeProvider [simp]: "activeProvider (snd (get k s)) = activeProvider s"
proof -
  obtain r1 s1 where u: "tryUpstash (upstash_get k) s = (r1, s1)"
    by (cases "tryUpstash (upstash_get k) s")
  obtain r2 s2 where a: "tryAzure (cmd_get k) s1 = (r2, s2)"
    by (cases "tryAzure (cmd_get k) s1")
  have "activeProvider s1 = activeProvider s"
    using tryUpstash_activeProvider [of "upstash_get k" s] u by simp
  moreover have "activeProvider s2 = activeProvider s1"
    using tryAzure_activeProvider [of "cmd_get k" s1] a by simp
  ultimately show ?thesis
    using u a by (simp add: get_def split: option.splits)
qed

lemma getHealthStatus_activeProvider [simp]:
  "activeProvider (snd (getHealthStatus s)) = activeProvider s"
  by (simp add: getHealthStatus_def Let_def split: prod.splits)

lemma getHealthStatus_active [simp]:
  "active (fst (getHealthStatus s)) = activeProvider s"
  by (simp add: getHealthStatus_def Let_def split: prod.splits)

lemma getHealthStatus_activeProviderD:
  "getHealthStatus s = (h, s') \<Longrightarrow> activeProvider s' = activeProvider s"
  using getHealthStatus_activeProvider [of s] by simp

lemma healthCheck_activeProvider [simp]:
  "activeProvider (snd (healthCheck s)) = activeProvider s"
proof -
  define k where "k = ''health:check:'' @ string_of_int (now s)"
  obtain r1 s1 where a: "set_op k (JStr ''ok'') (Some 10) s = (r1, s1)"
    by (cases "set_op k (JStr ''ok'') (Some 10) s")
  obtain r2 s2 where b: "get k s1 = (r2, s2)" by (cases "get k s1")
  obtain r3 s3 where c: "del (One k) s2 = (r3, s3)" by (cases "del (One k) s2")
  have 1: "activeProvider s1 = activeProvider s"
    using withFailover_activeProvider a unfolding set_op_def by (metis snd_conv)
  have 2: "activeProvider s2 = activeProvider s1"
    using get_activeProvider [of k s1] b by simp
  have 3: "activeProvider s3 = activeProvider s2"
    using withFailover_activeProvider c unfolding del_def Let_def by (metis snd_conv)
  show ?thesis
    unfolding healthCheck_def Let_def k_def [symmetric]
    using a b c 1 2 3
    by (auto split: sum.splits prod.splits dest: getHealthStatus_activeProviderD)
qed

lemma healthCheck_provider [simp]:
  "provider (fst (healthCheck s)) = activeProvider s"
proof -
  define k where "k = ''health:check:'' @ string_of_int (now s)"
  obtain r1 s1 where a: "set_op k (JStr ''ok'') (Some 10) s = (r1, s1)"
    by (cases "set_op k (JStr ''ok'') (Some 10) s")
  obtain r2 s2 where b: "get k s1 = (r2, s2)" by (cases "get k s1")
  obtain r3 s3 where c: "del (One k) s2 = (r3, s3)" by (cases "del (One k) s2")
  have 1: "activeProvider s1 = activeProvider s"
    using withFailover_activeProvider a unfolding set_op_def by (metis snd_conv)
  have 2: "activeProvider s2 = activeProvider s1"
    using get_activeProvider [of k s1] b by simp
  have 3: "activeProvider s3 = activeProvider s2"
    using withFailover_activeProvider c unfolding del_def Let_def by (metis snd_conv)
  show ?thesis
    unfolding healthCheck_def Let_def k_def [symmetric]
    using a b c 1 2 3
    by (auto split: sum.splits prod.splits dest: getHealthStatus_activeProviderD)
qed

lemma perform_activeProvider [simp]: "activeProvider (perform op s) = activeProvider s"
  by (cases op)
     (simp_all add: set_op_def del_def incr_def expire_def ttl_def exists_def setex_def
        keys_def eval_def sadd_def srem_def Let_def)

lemma elapse_activeProvider [simp]: "activeProvider (elapse d s) = activeProvider s"
  by (simp add: elapse_def)

lemma run_activeProvider: "activeProvider (run steps s) = activeProvider s"
  by (induction steps arbitrary: s) auto

text \<open>
  C9. The active provider is chosen when the router is constructed (the primary if its
  client exists, else the secondary, else mock) and no operation, pause, outage or
  driver event changes it afterwards: after any run of calls, whichever provider
  served them, \<^verbatim>\<open>getActiveProvider\<close>, \<^verbatim>\<open>getHealthStatus\<close> and
  \<^verbatim>\<open>healthCheck\<close> still report the provider the run started with.
\<close>

theorem activeProvider_fixed:
  "activeProvider (construct createdUpstash createdAzure t isProduction)
     = (case createdUpstash of
          Some _ \<Rightarrow> P_upstash
        | None \<Rightarrow> (case createdAzure of Some _ \<Rightarrow> P_azure | None \<Rightarrow> P_mock))
   \<and> activeProvider (perform op s) = activeProvider s
   \<and> activeProvider (run steps s) = activeProvider s
   \<and> activeProvider (onAzureError s) = activeProvider s
   \<and> activeProvider (onAzureConnect s) = activeProvider s
   \<and> activeProvider (outage p b s) = activeProvider s
   \<and> getActiveProvider (run steps s) = activeProvider s
   \<and> active (fst (getHealthStatus (run steps s))) = activeProvider s
   \<and> provider (fst (healthCheck (run steps s))) = activeProvider s"
proof -
  have c: "activeProvider (construct createdUpstash createdAzure t isProduction)
     = (case createdUpstash of
          Some _ \<Rightarrow> P_upstash
        | None \<Rightarrow> (case createdAzure of Some _ \<Rightarrow> P_azure | None \<Rightarrow> P_mock))"
    by (simp add: construct_def initialize_def split: option.splits)
  have e: "activeProvider (onAzureError s) = activeProvider s"
    "activeProvider (onAzureConnect s) = activeProvider s"
    by (simp_all add: onAzureError_def onAzureConnect_def)
  have o: "activeProvider (outage p b s) = activeProvider s"
    by (cases p) simp_all
  show ?thesis
    using c e o by (simp add: run_activeProvider getActiveProvider_def)
qed

subsection \<open>Concrete runs of the router\<close>

lemmas router_defs =
  construct_def initialize_def sampleClient_def sampleUpstash_def withFailover_def tryUpstash_def tryAzure_def
  invoke_def isProviderAvailable_def MAX_FAILURES_def FAILURE_RESET_TIME_def optionsEx_def
  cmd_get_def upstash_get_def cmd_set_def cmd_setex_def cmd_del_def cmd_other_def lookup_live_def is_live_def
  decodeAzure_def stringValue_def elapse_def get_def set_op_def del_def incr_def expire_def
  ttl_def exists_def setex_def keys_def eval_def sadd_def srem_def Let_def

lemma example_value_codec:
  "JSON_parse (JSON_stringify (JObj [(''n'', JNum 42)])) = Some (JObj [(''n'', JNum 42)])"
  by code_simp

lemma example_value_text: "JSON_stringify (JObj [(''n'', JNum 42)]) \<noteq> []"
  by simp

subsection \<open>Failover from a failing primary\<close>

text \<open>
  C6. Both providers configured, breaker fresh (both counters 0), the primary in an outage
  and the secondary not: \<^verbatim>\<open>set("x", {n: 42}, {ex: 10})\<close> succeeds, a following
  \<^verbatim>\<open>get("x")\<close> returns \<^verbatim>\<open>{n: 42}\<close>, the primary's counter stands at 2 (one
  failure per call) and the secondary's at 0. The get is taken to happen before the
  10 seconds of the entry run out: the two latencies and the pause \<open>d\<close> between
  the calls add up to less than 10000 ms.
\<close>

theorem failover_transparency:
  assumes "upstashClient s = Some cu" and "failing cu"
    and "azureClient s = Some ca" and "\<not> failing ca"
    and "upstash (failureTracker s) = 0" and "azure (failureTracker s) = 0"
    and "int (latency cu) + int (latency ca) + int d < 10000"
  shows "fst (set_op ''x'' (JObj [(''n'', JNum 42)]) (Some 10) s) = Inr (JStr ''OK'')
    \<and> fst (get ''x'' (elapse d (snd (set_op ''x'' (JObj [(''n'', JNum 42)]) (Some 10) s))))
        = JObj [(''n'', JNum 42)]
    \<and> upstash (failureTracker (snd (get ''x''
          (elapse d (snd (set_op ''x'' (JObj [(''n'', JNum 42)]) (Some 10) s)))))) = 2
    \<and> azure (failureTracker (snd (get ''x''
          (elapse d (snd (set_op ''x'' (JObj [(''n'', JNum 42)]) (Some 10) s)))))) = 0"
proof -
  define v where "v = JObj [(''n'', JNum 42)]"
  have sv: "stringValue v = JSON_stringify v"
    by (simp add: stringValue_def v_def)
  have codec: "JSON_parse (JSON_stringify v) = Some v"
    unfolding v_def by (rule example_value_codec)
  have nonempty: "JSON_stringify v \<noteq> []"
    unfolding v_def by (rule example_value_text)
  show ?thesis
    unfolding v_def [symmetric]
    using assms sv codec nonempty
    by (simp add: set_op_def get_def withFailover_def tryUpstash_def tryAzure_def invoke_def
        isProviderAvailable_def MAX_FAILURES_def optionsEx_def cmd_setex_def cmd_get_def
        lookup_live_def decodeAzure_def elapse_def Let_def)
qed


theorem failover_transparency_witness:
  "upstashClient (construct (Some (sampleUpstash True)) (Some (sampleClient False)) 0 True)
     = Some (sampleUpstash True)
   \<and> failing (sampleUpstash True)
   \<and> \<not> failing (sampleClient False :: string client)
   \<and> fst (set_op ''x'' (JObj [(''n'', JNum 42)]) (Some 10)
         (construct (Some (sampleUpstash True)) (Some (sampleClient False)) 0 True))
       = Inr (JStr ''OK'')
   \<and> fst (get ''x'' (elapse 1000 (snd (set_op ''x'' (JObj [(''n'', JNum 42)]) (Some 10)
         (construct (Some (sampleUpstash True)) (Some (sampleClient False)) 0 True)))))
       = JObj [(''n'', JNum 42)]
   \<and> upstash (failureTracker (snd (get ''x'' (elapse 1000 (snd (set_op ''x''
         (JObj [(''n'', JNum 42)]) (Some 10)
         (construct (Some (sampleUpstash True)) (Some (sampleClient False)) 0 True))))))) = 2
   \<and> azure (failureTracker (snd (get ''x'' (elapse 1000 (snd (set_op ''x''
         (JObj [(''n'', JNum 42)]) (Some 10)
         (construct (Some (sampleUpstash True)) (Some (sampleClient False)) 0 True))))))) = 0"
proof -
  let ?s = "construct (Some (sampleUpstash True)) (Some (sampleClient False)) 0 True"
  have u: "upstashClient ?s = Some (sampleUpstash True)"
    and a: "azureClient ?s = Some (sampleClient False)"
    and f: "upstash (failureTracker ?s) = 0" "azure (failureTracker ?s) = 0"
    by (simp_all add: construct_def initialize_def)
  have down: "failing (sampleUpstash True)"
    and up: "\<not> failing (sampleClient False :: string client)"
    and fast: "int (latency (sampleUpstash True))
        + int (latency (sampleClient False :: string client)) + int 1000 < 10000"
    by (simp_all add: sampleClient_def sampleUpstash_def)
  show ?thesis
    using u down up failover_transparency [OF u down a up f fast] by simp
qed

subsection \<open>Total outage\<close>

text \<open>
  C1. In production, with both providers configured and in an outage: the four reads
  return their neutral results, \<^verbatim>\<open>set\<close> and \<^verbatim>\<open>eval\<close> throw, and the other
  writes return a success value without throwing: \<^verbatim>\<open>setex\<close> returns
  \<^verbatim>\<open>'OK'\<close>, and \<^verbatim>\<open>del\<close>, \<^verbatim>\<open>incr\<close>, \<^verbatim>\<open>expire\<close>, \<^verbatim>\<open>sadd\<close>,
  \<^verbatim>\<open>srem\<close> return 0. Only \<^verbatim>\<open>set\<close> and \<^verbatim>\<open>eval\<close> look at the
  configuration: in development they return \<^verbatim>\<open>'OK'\<close> and \<^verbatim>\<open>null\<close>. The
  header of the module promises "never silent failures"; \<^verbatim>\<open>set\<close> with an expiry
  throws where \<^verbatim>\<open>setex\<close>, the same write, reports \<^verbatim>\<open>'OK'\<close>.
\<close>

theorem production_outage_outcomes:
  "fst (get ''k'' (construct (Some (sampleUpstash True)) (Some (sampleClient True)) 0 True))
     = JNull
   \<and> fst (exists ''k'' (construct (Some (sampleUpstash True)) (Some (sampleClient True)) 0 True))
     = Inr (JNum 0)
   \<and> fst (ttl ''k'' (construct (Some (sampleUpstash True)) (Some (sampleClient True)) 0 True))
     = Inr (JNum (- 1))
   \<and> fst (keys ''*'' (construct (Some (sampleUpstash True)) (Some (sampleClient True)) 0 True))
     = Inr (JArr [])
   \<and> fst (set_op ''k'' (JStr ''v'') None
        (construct (Some (sampleUpstash True)) (Some (sampleClient True)) 0 True))
     = Inl Redis_unavailable
   \<and> fst (eval ''return 1'' [] []
        (construct (Some (sampleUpstash True)) (Some (sampleClient True)) 0 True))
     = Inl Eval_failed
   \<and> fst (setex ''k'' 60 (JStr ''v'')
        (construct (Some (sampleUpstash True)) (Some (sampleClient True)) 0 True))
     = Inr (JStr ''OK'')
   \<and> fst (del (One ''k'') (construct (Some (sampleUpstash True)) (Some (sampleClient True)) 0 True))
     = Inr (JNum 0)
   \<and> fst (incr ''k'' (construct (Some (sampleUpstash True)) (Some (sampleClient True)) 0 True))
     = Inr (JNum 0)
   \<and> fst (expire ''k'' 60 (construct (Some (sampleUpstash True)) (Some (sampleClient True)) 0 True))
     = Inr (JNum 0)
   \<and> fst (sadd ''k'' [''m''] (construct (Some (sampleUpstash True)) (Some (sampleClient True)) 0 True))
     = Inr (JNum 0)
   \<and> fst (srem ''k'' [''m''] (construct (Some (sampleUpstash True)) (Some (sampleClient True)) 0 True))
     = Inr (JNum 0)
   \<and> fst (set_op ''k'' (JStr ''v'') None
        (construct (Some (sampleUpstash True)) (Some (sampleClient True)) 0 False))
     = Inr (JStr ''OK'')
   \<and> fst (eval ''return 1'' [] []
        (construct (Some (sampleUpstash True)) (Some (sampleClient True)) 0 False))
     = Inr JNull"
  by (simp add: router_defs)

subsection \<open>Round trip of a value\<close>




text \<open>What one block does, case by case.\<close>

lemma tryUpstash_absent: "upstashClient s = None \<Longrightarrow> tryUpstash cmd s = (None, s)"
  by (simp add: tryUpstash_def)

lemma tryAzure_absent: "azureClient s = None \<Longrightarrow> tryAzure cmd s = (None, s)"
  by (simp add: tryAzure_def)











subsection \<open>Where values are encoded and decoded\<close>








subsection \<open>An open breaker\<close>

lemma untouched_refl [simp]: "untouched p s s"
  by (simp add: untouched_def)



































end
